theory Spec2Isabelle
  imports Main "HOL-Library.Word"
begin

unbundle bit_operations_syntax

section \<open>Memory\<close>

text \<open>
  The allocator of \<^verbatim>\<open>wmalloc.h\<close> computes addresses as 64-bit integers and reads and
  writes 8-byte words at them. Memory is a map from 64-bit byte addresses to bytes; an
  8-byte access is little-endian (the byte order of the x86-64 systems the header is
  written for). Address arithmetic wraps modulo \<open>2 ^ 64\<close>, as \<^verbatim>\<open>uint64_t\<close> does.
  Every address is readable and writable in the model; the two places where the program
  is known to stop instead (a failed \<^verbatim>\<open>assert\<close>, a store through a null pointer in
  \<^verbatim>\<open>remove_chunk\<close>) are error results.
\<close>

type_synonym u64 = "64 word"
type_synonym memory = "u64 \<Rightarrow> 8 word"

definition load64 :: "memory \<Rightarrow> u64 \<Rightarrow> u64" where
  "load64 m a =
     ucast (m a) OR push_bit 8 (ucast (m (a + 1))) OR push_bit 16 (ucast (m (a + 2)))
     OR push_bit 24 (ucast (m (a + 3))) OR push_bit 32 (ucast (m (a + 4)))
     OR push_bit 40 (ucast (m (a + 5))) OR push_bit 48 (ucast (m (a + 6)))
     OR push_bit 56 (ucast (m (a + 7)))"

definition store64 :: "memory \<Rightarrow> u64 \<Rightarrow> u64 \<Rightarrow> memory" where
  "store64 m a v = (\<lambda>x. if x - a < 8 then ucast (drop_bit (8 * unat (x - a)) v) else m x)"

section \<open>Results\<close>

text \<open>
  A call either returns, or stops the program (\<open>Inl\<close>), or never returns (\<open>None\<close>: the
  list walks and the bin-bound scan of \<^verbatim>\<open>add_chunk\<close> have no bound of their own).
  The header leaves \<^verbatim>\<open>NDEBUG\<close> undefined, so every \<^verbatim>\<open>assert\<close> is active.
\<close>

datatype error = Assertion_failed | Null_dereference

type_synonym 'a res = "(error + 'a) option"

definition ok :: "'a \<Rightarrow> 'a res" where
  "ok x = Some (Inr x)"

definition abort :: "error \<Rightarrow> 'a res" where
  "abort e = Some (Inl e)"

definition bnd :: "'a res \<Rightarrow> ('a \<Rightarrow> 'b res) \<Rightarrow> 'b res" where
  "bnd r f = (case r of None \<Rightarrow> None | Some (Inl e) \<Rightarrow> Some (Inl e) | Some (Inr x) \<Rightarrow> f x)"

section \<open>Constants and layout\<close>

definition CHUNK_OVERHEAD :: u64 where "CHUNK_OVERHEAD = 24"
definition NUM_BINS :: nat where "NUM_BINS = 46"
definition MMAP_SIZE :: u64 where "MMAP_SIZE = 0x20000"
definition PAGE_SIZE :: u64 where "PAGE_SIZE = 0x1000"
definition MINIMUM_CHUNK_SIZE :: u64 where "MINIMUM_CHUNK_SIZE = 40"

text \<open>
  \<^verbatim>\<open>struct chunk\<close>: four 8-byte fields at offsets 0, 8, 16 and 24.
\<close>

definition prev_chunk_size :: "memory \<Rightarrow> u64 \<Rightarrow> u64" where
  "prev_chunk_size m ch = load64 m ch"

definition curr_chunk_size :: "memory \<Rightarrow> u64 \<Rightarrow> u64" where
  "curr_chunk_size m ch = load64 m (ch + 8)"

definition left_ptr :: "memory \<Rightarrow> u64 \<Rightarrow> u64" where
  "left_ptr m ch = load64 m (ch + 16)"

definition right_ptr :: "memory \<Rightarrow> u64 \<Rightarrow> u64" where
  "right_ptr m ch = load64 m (ch + 24)"

text \<open>
  \<^verbatim>\<open>struct wmalloc_info\<close> at address \<open>w\<close>: \<^verbatim>\<open>bin[46]\<close> (pointers) at offset 0,
  \<^verbatim>\<open>dummy[46]\<close> (chunks of 32 bytes) at offset 368, \<^verbatim>\<open>bin_index[46]\<close> at offset 1840;
  2208 bytes in all.
\<close>

definition bin_addr :: "u64 \<Rightarrow> nat \<Rightarrow> u64" where
  "bin_addr w i = w + 8 * of_nat i"

definition bin :: "memory \<Rightarrow> u64 \<Rightarrow> nat \<Rightarrow> u64" where
  "bin m w i = load64 m (bin_addr w i)"

definition dummy :: "u64 \<Rightarrow> nat \<Rightarrow> u64" where
  "dummy w i = w + 368 + 32 * of_nat i"

definition bin_index_addr :: "u64 \<Rightarrow> nat \<Rightarrow> u64" where
  "bin_index_addr w i = w + 1840 + 8 * of_nat i"

definition bin_index :: "memory \<Rightarrow> u64 \<Rightarrow> nat \<Rightarrow> u64" where
  "bin_index m w i = load64 m (bin_index_addr w i)"

section \<open>Engine state and the operating system\<close>

text \<open>
  The global \<^verbatim>\<open>wmalloc_ptr\<close>, the memory, and the answers the operating system will give
  to the coming \<^verbatim>\<open>sbrk\<close> and \<^verbatim>\<open>mmap\<close> calls, in order. The answer \<open>- 1\<close> is the failure
  value \<^verbatim>\<open>(void*) -1\<close>; an exhausted list answers with failure. A successful anonymous
  mapping is zero-filled, and a mapping of length 0 fails.
\<close>

record state =
  mem :: memory
  wmalloc_ptr :: u64
  sbrk_results :: "u64 list"
  mmap_results :: "u64 list"

definition sbrk :: "state \<Rightarrow> u64 \<Rightarrow> state \<times> u64" where
  "sbrk s increment =
     (case sbrk_results s of
        [] \<Rightarrow> (s, - 1)
      | r # rs \<Rightarrow> (s\<lparr>sbrk_results := rs\<rparr>, r))"

definition zero_fill :: "memory \<Rightarrow> u64 \<Rightarrow> u64 \<Rightarrow> memory" where
  "zero_fill m a len = (\<lambda>x. if x - a < len then 0 else m x)"

definition mmap :: "state \<Rightarrow> u64 \<Rightarrow> state \<times> u64" where
  "mmap s len =
     (case mmap_results s of
        [] \<Rightarrow> (s, - 1)
      | r # rs \<Rightarrow>
          if len = 0 \<or> r = - 1 then (s\<lparr>mmap_results := rs\<rparr>, - 1)
          else (s\<lparr>mmap_results := rs, mem := zero_fill (mem s) r len\<rparr>, r))"

section \<open>Initializing functions\<close>

function init_dummy_loop :: "memory \<Rightarrow> u64 \<Rightarrow> nat \<Rightarrow> memory" where
  "init_dummy_loop m w i =
     (if i < NUM_BINS then
        let m1 = store64 m (dummy w i + 8) 0;
            m2 = store64 m1 (dummy w i + 16) 0;
            m3 = store64 m2 (dummy w i + 24) 0;
            m4 = store64 m3 (bin_addr w i) (dummy w i)
        in init_dummy_loop m4 w (i + 1)
      else m)"
  by pat_completeness auto
termination
  by (relation "measure (\<lambda>(m, w, i). NUM_BINS - i)") auto

declare init_dummy_loop.simps [simp del]

text \<open>
  The first four loops of \<^verbatim>\<open>initialize_bin_indices\<close> count \<open>i\<close> up to a limit by a
  constant step, the fifth doubles it below 1000000. The guards \<open>0 < step\<close> and \<open>0 < i\<close>
  only make the recursion well-founded; the source runs the loops from positive constants.
\<close>

function bin_index_loop :: "memory \<Rightarrow> u64 \<Rightarrow> nat \<Rightarrow> nat \<Rightarrow> nat \<Rightarrow> nat \<Rightarrow> memory \<times> nat" where
  "bin_index_loop m w step lim i index =
     (if i \<le> lim \<and> 0 < step then
        bin_index_loop (store64 m (bin_index_addr w index) (of_nat i)) w step lim (i + step) (index + 1)
      else (m, index))"
  by pat_completeness auto
termination
  by (relation "measure (\<lambda>(m, w, step, lim, i, index). lim + 1 - i)") auto

declare bin_index_loop.simps [simp del]

function bin_index_double_loop :: "memory \<Rightarrow> u64 \<Rightarrow> nat \<Rightarrow> nat \<Rightarrow> memory \<times> nat" where
  "bin_index_double_loop m w i index =
     (if i < 1000000 \<and> 0 < i then
        bin_index_double_loop (store64 m (bin_index_addr w index) (of_nat i)) w (i * 2) (index + 1)
      else (m, index))"
  by pat_completeness auto
termination
  by (relation "measure (\<lambda>(m, w, i, index). 1000000 - i)") auto

declare bin_index_double_loop.simps [simp del]

definition initialize_bin_indices :: "memory \<Rightarrow> u64 \<Rightarrow> memory res" where
  "initialize_bin_indices m w =
     (if w = 0 then abort Assertion_failed
      else
        let (m1, i1) = bin_index_loop m w 8 128 40 0;
            (m2, i2) = bin_index_loop m1 w 16 256 144 i1;
            (m3, i3) = bin_index_loop m2 w 32 512 288 i2;
            (m4, i4) = bin_index_loop m3 w 64 1024 576 i3;
            (m5, i5) = bin_index_double_loop m4 w 2048 i4
        in ok (store64 m5 (bin_index_addr w i5) 0xffffffffffffffff))"

text \<open>
  \<^verbatim>\<open>initialize_wmalloc\<close> assigns the result of \<^verbatim>\<open>sbrk\<close> to the global before it tests it.
\<close>

definition initialize_wmalloc :: "state \<Rightarrow> (state \<times> int) res" where
  "initialize_wmalloc s =
     (let (s1, p) = sbrk s 2208;
          s2 = s1\<lparr>wmalloc_ptr := p\<rparr>
      in if p = - 1 then ok (s2, - 1)
         else bnd (initialize_bin_indices (init_dummy_loop (mem s2) p 0) p)
                (\<lambda>m. ok (s2\<lparr>mem := m\<rparr>, 1)))"

section \<open>General purpose functions\<close>

definition is_prev_available :: "memory \<Rightarrow> u64 \<Rightarrow> int res" where
  "is_prev_available m ch =
     (if ch = 0 then abort Assertion_failed
      else ok (if prev_chunk_size m ch \<noteq> 0 \<and> drop_bit 63 (prev_chunk_size m ch) = 0
               then 1 else 0))"

definition next_size_addr :: "memory \<Rightarrow> u64 \<Rightarrow> u64" where
  "next_size_addr m ch = ch + curr_chunk_size m ch - 8"

definition is_next_available :: "memory \<Rightarrow> u64 \<Rightarrow> int res" where
  "is_next_available m ch =
     (if ch = 0 then abort Assertion_failed
      else ok (if load64 m (next_size_addr m ch) \<noteq> 0
                  \<and> drop_bit 63 (load64 m (next_size_addr m ch)) = 0
               then 1 else 0))"

definition set_prev_chunk_size :: "memory \<Rightarrow> u64 \<Rightarrow> u64 \<Rightarrow> memory res" where
  "set_prev_chunk_size m ch n =
     (if ch = 0 then abort Assertion_failed
      else let flag = 0x8000000000000000 AND prev_chunk_size m ch
           in ok (store64 m ch (n + flag)))"

definition set_next_chunk_size :: "memory \<Rightarrow> u64 \<Rightarrow> u64 \<Rightarrow> memory res" where
  "set_next_chunk_size m ch n =
     (if ch = 0 then abort Assertion_failed
      else let address = next_size_addr m ch;
               flag = 0x8000000000000000 AND load64 m address
           in ok (store64 m address (n + flag)))"

definition get_prev_chunk_size :: "memory \<Rightarrow> u64 \<Rightarrow> u64 res" where
  "get_prev_chunk_size m ch =
     (if ch = 0 then abort Assertion_failed
      else ok (prev_chunk_size m ch AND 0x7fffffffffffffff))"

definition get_next_chunk_size :: "memory \<Rightarrow> u64 \<Rightarrow> u64 res" where
  "get_next_chunk_size m ch =
     (if ch = 0 then abort Assertion_failed
      else ok (0x7fffffffffffffff AND load64 m (next_size_addr m ch)))"

definition get_prev_chunk :: "memory \<Rightarrow> u64 \<Rightarrow> u64 res" where
  "get_prev_chunk m ch =
     (if ch = 0 then abort Assertion_failed
      else bnd (get_prev_chunk_size m ch) (\<lambda>n. ok (ch - n)))"

definition get_next_chunk :: "memory \<Rightarrow> u64 \<Rightarrow> u64 res" where
  "get_next_chunk m ch =
     (if ch = 0 then abort Assertion_failed
      else ok (ch + curr_chunk_size m ch))"

text \<open>
  With \<open>flag = 1\<close> the two flag setters clear the top bit; with any other \<open>flag\<close> they
  toggle it (\<^verbatim>\<open>^\<close>).
\<close>

definition set_prev_flag :: "memory \<Rightarrow> u64 \<Rightarrow> int \<Rightarrow> memory res" where
  "set_prev_flag m ch flag =
     (if ch = 0 then abort Assertion_failed
      else if flag = 1 then ok (store64 m ch (prev_chunk_size m ch AND 0x7fffffffffffffff))
      else ok (store64 m ch (prev_chunk_size m ch XOR 0x8000000000000000)))"

definition set_next_flag :: "memory \<Rightarrow> u64 \<Rightarrow> int \<Rightarrow> memory res" where
  "set_next_flag m ch flag =
     (if ch = 0 then abort Assertion_failed
      else let address = next_size_addr m ch
           in if flag = 1 then ok (store64 m address (load64 m address AND 0x7fffffffffffffff))
              else ok (store64 m address (load64 m address XOR 0x8000000000000000)))"

definition set_unavailable :: "memory \<Rightarrow> u64 \<Rightarrow> memory res" where
  "set_unavailable m ch =
     (if ch = 0 then abort Assertion_failed
      else
        bnd (get_prev_chunk_size m ch) (\<lambda>p.
        bnd (if p \<noteq> 0
             then bnd (get_prev_chunk m ch) (\<lambda>prev_chunk. set_next_flag m prev_chunk 0)
             else ok m) (\<lambda>m1.
        bnd (get_next_chunk_size m1 ch) (\<lambda>n.
        if n \<noteq> 0
        then bnd (get_next_chunk m1 ch) (\<lambda>next_chunk. set_prev_flag m1 next_chunk 0)
        else ok m1))))"

definition set_available :: "memory \<Rightarrow> u64 \<Rightarrow> memory res" where
  "set_available m ch =
     (if ch = 0 then abort Assertion_failed
      else
        bnd (get_prev_chunk_size m ch) (\<lambda>p.
        bnd (if p \<noteq> 0
             then bnd (get_prev_chunk m ch) (\<lambda>prev_chunk. set_next_flag m prev_chunk 1)
             else ok m) (\<lambda>m1.
        bnd (get_next_chunk_size m1 ch) (\<lambda>n.
        if n \<noteq> 0
        then bnd (get_next_chunk m1 ch) (\<lambda>next_chunk. set_prev_flag m1 next_chunk 1)
        else ok m1))))"

definition set_adjacent_sizes :: "memory \<Rightarrow> u64 \<Rightarrow> int \<Rightarrow> memory res" where
  "set_adjacent_sizes m ch available =
     (if ch = 0 then abort Assertion_failed
      else
        let chunk_size = (if available = 1 then curr_chunk_size m ch
                          else curr_chunk_size m ch + 0x8000000000000000)
        in
        bnd (if prev_chunk_size m ch \<noteq> 0
             then bnd (get_prev_chunk m ch) (\<lambda>prev_chunk.
                    set_next_chunk_size m prev_chunk chunk_size)
             else ok m) (\<lambda>m1.
        bnd (get_next_chunk_size m1 ch) (\<lambda>n.
        if n \<noteq> 0
        then bnd (get_next_chunk m1 ch) (\<lambda>next_chunk. ok (store64 m1 next_chunk chunk_size))
        else ok m1)))"

section \<open>The bins\<close>

text \<open>
  The walk of \<^verbatim>\<open>insert_in_place\<close>: the pair \<open>(prev, cur)\<close> between which the chunk goes,
  \<open>cur = 0\<close> when it goes last.
\<close>

partial_function (option) insert_in_place_loop ::
  "memory \<Rightarrow> u64 \<Rightarrow> u64 \<Rightarrow> u64 \<Rightarrow> (u64 \<times> u64) option" where
  "insert_in_place_loop m to_add prev cur =
     (if cur \<noteq> 0 then
        (if curr_chunk_size m to_add < curr_chunk_size m cur then Some (prev, cur)
         else insert_in_place_loop m to_add cur (right_ptr m cur))
      else Some (prev, 0))"

definition insert_in_place :: "memory \<Rightarrow> u64 \<Rightarrow> u64 \<Rightarrow> memory res" where
  "insert_in_place m head to_add =
     (if head = 0 then abort Assertion_failed
      else
        case insert_in_place_loop m to_add head (right_ptr m head) of
          None \<Rightarrow> None
        | Some (prev, cur) \<Rightarrow>
            if cur \<noteq> 0 then
              let m1 = store64 m (prev + 24) to_add;
                  m2 = store64 m1 (cur + 16) to_add;
                  m3 = store64 m2 (to_add + 24) cur;
                  m4 = store64 m3 (to_add + 16) prev
              in ok m4
            else
              let m1 = store64 m (prev + 24) to_add;
                  m2 = store64 m1 (to_add + 16) prev;
                  m3 = store64 m2 (to_add + 24) 0
              in ok m3)"

partial_function (option) add_chunk_loop :: "memory \<Rightarrow> u64 \<Rightarrow> u64 \<Rightarrow> nat \<Rightarrow> nat option" where
  "add_chunk_loop m w to_add i =
     (if curr_chunk_size m to_add > bin_index m w i then add_chunk_loop m w to_add (i + 1)
      else Some i)"

definition add_chunk :: "memory \<Rightarrow> u64 \<Rightarrow> u64 \<Rightarrow> memory res" where
  "add_chunk m w to_add =
     (if to_add = 0 then abort Assertion_failed
      else
        case add_chunk_loop m w to_add 0 of
          None \<Rightarrow> None
        | Some i \<Rightarrow> insert_in_place m (bin m w i) to_add)"

function find_bin_loop :: "memory \<Rightarrow> u64 \<Rightarrow> u64 \<Rightarrow> nat \<Rightarrow> nat" where
  "find_bin_loop m w request_length i =
     (if request_length > bin_index m w i \<and> i < NUM_BINS
      then find_bin_loop m w request_length (i + 1)
      else i)"
  by pat_completeness auto
termination
  by (relation "measure (\<lambda>(m, w, request_length, i). NUM_BINS - i)") auto

declare find_bin_loop.simps [simp del]

definition find_bin :: "memory \<Rightarrow> u64 \<Rightarrow> u64 \<Rightarrow> nat" where
  "find_bin m w request_length = find_bin_loop m w request_length 1"

text \<open>
  \<^verbatim>\<open>remove_chunk\<close> has no assertion. It stores through \<^verbatim>\<open>to_remove->left_ptr\<close>, which is
  null in a bin's dummy node: that store stops the program.
\<close>

definition remove_chunk :: "memory \<Rightarrow> u64 \<Rightarrow> (memory \<times> u64) res" where
  "remove_chunk m to_remove =
     (if to_remove = 0 then abort Null_dereference
      else
        let left_neighbor = left_ptr m to_remove;
            right_neighbor = right_ptr m to_remove
        in if left_neighbor = 0 then abort Null_dereference
           else
             let m1 = (if right_neighbor = 0 then store64 m (left_neighbor + 24) 0
                       else store64 (store64 m (left_neighbor + 24) right_neighbor)
                              (right_neighbor + 16) left_neighbor);
                 m2 = store64 m1 (to_remove + 24) 0;
                 m3 = store64 m2 (to_remove + 16) 0
             in ok (m3, to_remove))"

text \<open>
  \<^verbatim>\<open>search_bin\<close> takes the length as an \<^verbatim>\<open>int\<close>: the caller's 64-bit length is cut to its
  low 32 bits, and the comparison with the 64-bit chunk size sign-extends it again. The
  walk starts at the bin's dummy node itself. The loop yields the node it selects
  (\<open>0\<close> for none); \<^verbatim>\<open>search_bin\<close> then removes it.
\<close>

partial_function (option) search_bin_loop :: "memory \<Rightarrow> u64 \<Rightarrow> 32 word \<Rightarrow> u64 option" where
  "search_bin_loop m cur request_length =
     (if cur \<noteq> 0 then
        (if curr_chunk_size m cur \<ge> scast request_length then Some cur
         else search_bin_loop m (right_ptr m cur) request_length)
      else Some 0)"

definition search_bin :: "memory \<Rightarrow> u64 \<Rightarrow> nat \<Rightarrow> 32 word \<Rightarrow> (memory \<times> u64) res" where
  "search_bin m w i request_length =
     (case search_bin_loop m (bin m w i) request_length of
        None \<Rightarrow> None
      | Some cur \<Rightarrow> if cur = 0 then ok (m, 0) else remove_chunk m cur)"

function check_bigger_bins_loop :: "memory \<Rightarrow> u64 \<Rightarrow> nat \<Rightarrow> u64" where
  "check_bigger_bins_loop m w i =
     (if i < NUM_BINS then
        (if right_ptr m (bin m w i) \<noteq> 0 then right_ptr m (bin m w i)
         else check_bigger_bins_loop m w (i + 1))
      else 0)"
  by pat_completeness auto
termination
  by (relation "measure (\<lambda>(m, w, i). NUM_BINS - i)") auto

declare check_bigger_bins_loop.simps [simp del]

definition check_bigger_bins :: "memory \<Rightarrow> u64 \<Rightarrow> nat \<Rightarrow> (memory \<times> u64) res" where
  "check_bigger_bins m w i =
     (let c = check_bigger_bins_loop m w (i + 1)
      in if c = 0 then ok (m, 0) else remove_chunk m c)"

section \<open>Allocating functions\<close>

definition mmap_length :: "u64 \<Rightarrow> u64" where
  "mmap_length required_length =
     (if required_length \<le> MMAP_SIZE then MMAP_SIZE
      else (required_length div PAGE_SIZE + 1) * PAGE_SIZE)"

definition allocate_chunk :: "state \<Rightarrow> u64 \<Rightarrow> (state \<times> u64) res" where
  "allocate_chunk s required_length =
     (let (s1, mmap_ptr) = mmap s (mmap_length required_length)
      in if mmap_ptr = - 1 then ok (s1, 0)
         else
           bnd (set_prev_chunk_size (mem s1) mmap_ptr 0) (\<lambda>m1.
           let m2 = store64 m1 (mmap_ptr + 8) (mmap_length required_length)
           in bnd (set_next_chunk_size m2 mmap_ptr 0) (\<lambda>m3.
              ok (s1\<lparr>mem := m3\<rparr>, mmap_ptr))))"

text \<open>
  The body of the \<^verbatim>\<open>if\<close> statement of \<^verbatim>\<open>split_chunk\<close>: the chunk is cut at
  \<open>required_length\<close> and the right part goes to its bin.
\<close>

definition split_chunk_cleave :: "memory \<Rightarrow> u64 \<Rightarrow> u64 \<Rightarrow> u64 \<Rightarrow> memory res" where
  "split_chunk_cleave m w to_remove required_length =
     (let next_chunk_size = curr_chunk_size m to_remove - required_length
      in
      bnd (get_next_chunk_size m to_remove) (\<lambda>save_chunk_size.
      let m1 = store64 m (to_remove + 8) required_length
      in
      bnd (set_next_chunk_size m1 to_remove next_chunk_size) (\<lambda>m2.
      let new_chunk = to_remove + curr_chunk_size m2 to_remove;
          m3 = store64 m2 (new_chunk + 8) next_chunk_size
      in
      bnd (set_prev_chunk_size m3 new_chunk (curr_chunk_size m3 to_remove)) (\<lambda>m4.
      bnd (set_next_chunk_size m4 new_chunk save_chunk_size) (\<lambda>m5.
      add_chunk m5 w new_chunk)))))"

definition split_chunk :: "memory \<Rightarrow> u64 \<Rightarrow> u64 \<Rightarrow> u64 \<Rightarrow> memory res" where
  "split_chunk m w to_remove required_length =
     (if to_remove = 0 then abort Assertion_failed
      else
        bnd (if curr_chunk_size m to_remove \<ge> required_length + MINIMUM_CHUNK_SIZE
             then split_chunk_cleave m w to_remove required_length
             else ok m) (\<lambda>m6.
        set_unavailable m6 to_remove))"

definition necessary_length :: "u64 \<Rightarrow> u64" where
  "necessary_length request_length =
     (if request_length + CHUNK_OVERHEAD < MINIMUM_CHUNK_SIZE then MINIMUM_CHUNK_SIZE
      else request_length + CHUNK_OVERHEAD)"

text \<open>
  \<^verbatim>\<open>wmalloc\<close> returns the state and the pointer; the pointer \<open>0\<close> is \<^verbatim>\<open>NULL\<close>. The
  diagnostic \<^verbatim>\<open>printf\<close> calls are not modelled.
\<close>

definition wmalloc :: "state \<Rightarrow> u64 \<Rightarrow> (state \<times> u64) res" where
  "wmalloc s request_length =
     bnd (if wmalloc_ptr s = 0 then initialize_wmalloc s else ok (s, 1)) (\<lambda>(s1, r).
     if r = - 1 then ok (s1, 0)
     else
       let n = necessary_length request_length;
           w = wmalloc_ptr s1;
           i = find_bin (mem s1) w n
       in
       bnd (search_bin (mem s1) w i (ucast n)) (\<lambda>(m2, to_remove).
       bnd (if to_remove = 0 then check_bigger_bins m2 w i else ok (m2, to_remove))
         (\<lambda>(m3, to_remove).
       bnd (if to_remove = 0 then
              bnd (allocate_chunk (s1\<lparr>mem := m3\<rparr>) n) (\<lambda>(s4, to_remove).
              bnd (split_chunk (mem s4) w to_remove n) (\<lambda>m5.
              ok (s4\<lparr>mem := m5\<rparr>, to_remove)))
            else
              bnd (split_chunk m3 w to_remove n) (\<lambda>m5.
              ok (s1\<lparr>mem := m5\<rparr>, to_remove)))
         (\<lambda>(s5, to_remove). ok (s5, to_remove + 16)))))"

section \<open>Freeing functions\<close>

definition join_chunks :: "memory \<Rightarrow> u64 \<Rightarrow> u64 \<Rightarrow> (memory \<times> u64) res" where
  "join_chunks m first second =
     (let total_length = curr_chunk_size m first + curr_chunk_size m second;
          m1 = store64 m (first + 8) total_length
      in bnd (set_adjacent_sizes m1 first 1) (\<lambda>m2. ok (m2, first)))"

definition wfree :: "state \<Rightarrow> u64 \<Rightarrow> state res" where
  "wfree s to_free =
     (let ch = to_free - 16
      in
      bnd (set_available (mem s) ch) (\<lambda>m1.
      bnd (is_prev_available m1 ch) (\<lambda>pa.
      bnd (if pa = 1 then
             bnd (get_prev_chunk m1 ch) (\<lambda>p.
             bnd (remove_chunk m1 p) (\<lambda>(m2, prev_chunk).
             join_chunks m2 prev_chunk ch))
           else ok (m1, ch)) (\<lambda>(m3, ch).
      bnd (is_next_available m3 ch) (\<lambda>na.
      bnd (if na = 1 then
             bnd (get_next_chunk m3 ch) (\<lambda>n.
             bnd (remove_chunk m3 n) (\<lambda>(m4, next_chunk).
             join_chunks m4 ch next_chunk))
           else ok (m3, ch)) (\<lambda>(m5, ch).
      bnd (add_chunk m5 (wmalloc_ptr s) ch) (\<lambda>m6.
      ok (s\<lparr>mem := m6\<rparr>))))))))"

section \<open>Callers\<close>

text \<open>
  The walk of \<^verbatim>\<open>print_available\<close> and \<^verbatim>\<open>calc_mem_available\<close> in
  \<^verbatim>\<open>wmalloc_test.c\<close> over one bin, from the node after the dummy to the null pointer:
  the addresses of the chunks the bin holds.
\<close>

partial_function (option) bin_chunks_loop :: "memory \<Rightarrow> u64 \<Rightarrow> u64 list option" where
  "bin_chunks_loop m cur =
     (if cur \<noteq> 0
      then Option.bind (bin_chunks_loop m (right_ptr m cur)) (\<lambda>rest. Some (cur # rest))
      else Some [])"

definition bin_chunks :: "state \<Rightarrow> nat \<Rightarrow> u64 list option" where
  "bin_chunks s i = bin_chunks_loop (mem s) (right_ptr (mem s) (bin (mem s) (wmalloc_ptr s) i))"

text \<open>
  A caller in the manner of the tests: it keeps the pointers it was given in an array and
  either allocates, or releases the pointer in a slot of the array.
\<close>

datatype call = Malloc u64 | Free nat

fun run :: "state \<Rightarrow> u64 list \<Rightarrow> call list \<Rightarrow> (state \<times> u64 list) res" where
  "run s ps [] = ok (s, ps)"
| "run s ps (Malloc n # cs) = bnd (wmalloc s n) (\<lambda>(s', p). run s' (ps @ [p]) cs)"
| "run s ps (Free k # cs) =
     (if k < length ps then bnd (wfree s (ps ! k)) (\<lambda>s'. run s' ps cs) else run s ps cs)"

text \<open>
  The engine before its first use, in zero-filled memory. The operating system will answer
  the first \<^verbatim>\<open>sbrk\<close> with the address 65536 and the \<^verbatim>\<open>mmap\<close> calls with the page-aligned
  addresses 1048576 and 2097152.
\<close>

definition fresh :: state where
  "fresh = \<lparr>mem = (\<lambda>_. 0), wmalloc_ptr = 0, sbrk_results = [65536],
     mmap_results = [1048576, 2097152]\<rparr>"

text \<open>
  What a scenario shows of the engine: the pointers the caller was given, the
  \<^verbatim>\<open>curr_chunk_size\<close> fields of chosen chunks, the 8-byte words at chosen addresses,
  the chunks held by chosen bins, and the answers of \<^verbatim>\<open>mmap\<close> not yet used.
\<close>

definition observe ::
  "state \<Rightarrow> call list \<Rightarrow> u64 list \<Rightarrow> u64 list \<Rightarrow> nat list
     \<Rightarrow> (u64 list \<times> u64 list \<times> u64 list \<times> u64 list option list \<times> u64 list) res" where
  "observe s0 calls chunks words bins =
     bnd (run s0 [] calls) (\<lambda>(s, ps).
       ok (ps, map (curr_chunk_size (mem s)) chunks, map (load64 (mem s)) words,
           map (bin_chunks s) bins, mmap_results s))"

text \<open>
  The steps of \<^verbatim>\<open>wmalloc\<close> up to the call of \<^verbatim>\<open>set_unavailable\<close> in \<^verbatim>\<open>split_chunk\<close>, for a
  request that \<^verbatim>\<open>search_bin\<close> misses and \<^verbatim>\<open>check_bigger_bins\<close> serves: the result of
  \<^verbatim>\<open>search_bin\<close>, the chunk taken, whether it is split, its right neighbour, and that
  neighbour's \<^verbatim>\<open>prev_chunk_size\<close> word before and after \<^verbatim>\<open>set_unavailable\<close>.
\<close>

definition split_moment :: "state \<Rightarrow> call list \<Rightarrow> u64 \<Rightarrow> (u64 \<times> u64 \<times> bool \<times> u64 \<times> u64 \<times> u64) res" where
  "split_moment s0 calls request_length =
     bnd (run s0 [] calls) (\<lambda>(s, ps).
     let w = wmalloc_ptr s;
         n = necessary_length request_length;
         i = find_bin (mem s) w n
     in
     bnd (search_bin (mem s) w i (ucast n)) (\<lambda>(m2, found).
     bnd (check_bigger_bins m2 w i) (\<lambda>(m3, to_remove).
     bnd (split_chunk_cleave m3 w to_remove n) (\<lambda>m6.
     bnd (get_next_chunk m6 to_remove) (\<lambda>next_chunk.
     bnd (set_unavailable m6 to_remove) (\<lambda>m7.
       ok (found, to_remove, curr_chunk_size m3 to_remove \<ge> n + MINIMUM_CHUNK_SIZE,
           next_chunk, prev_chunk_size m6 next_chunk, prev_chunk_size m7 next_chunk)))))))"

text \<open>
  The first steps of \<^verbatim>\<open>wmalloc\<close> on the engine before its first use: the bin
  \<^verbatim>\<open>find_bin\<close> gives, the node the walk of \<^verbatim>\<open>search_bin\<close> selects there, and the
  address of that bin's dummy node.
\<close>

definition sentinel_search :: "u64 \<Rightarrow> (nat \<times> u64 option \<times> u64) res" where
  "sentinel_search request_length =
     bnd (initialize_wmalloc fresh) (\<lambda>(s, r).
     let w = wmalloc_ptr s;
         n = necessary_length request_length;
         i = find_bin (mem s) w n
     in ok (i, search_bin_loop (mem s) (bin (mem s) w i) (ucast n), dummy w i))"

section \<open>Proof tools\<close>

text \<open>
  A memory in two parts: the bytes of the region \<open>[lo, lo + len)\<close> come from \<open>s\<close>, all
  others from \<open>h\<close>. The predicates below compare addresses as natural numbers.
\<close>

definition split_mem :: "u64 \<Rightarrow> u64 \<Rightarrow> memory \<Rightarrow> memory \<Rightarrow> memory" where
  "split_mem lo len s h = (\<lambda>x. if x - lo < len then s x else h x)"

definition far64 :: "nat \<Rightarrow> nat \<Rightarrow> bool" where
  "far64 a b \<longleftrightarrow>
     (a + 8 \<le> b \<or> b + 8 \<le> a) \<and> a \<le> 18446744073709551608 \<and> b \<le> 18446744073709551608"

definition inside64 :: "nat \<Rightarrow> nat \<Rightarrow> nat \<Rightarrow> bool" where
  "inside64 lo len a \<longleftrightarrow>
     lo \<le> a \<and> a + 8 \<le> lo + len \<and> lo + len < 18446744073709551616"

definition outside64 :: "nat \<Rightarrow> nat \<Rightarrow> nat \<Rightarrow> bool" where
  "outside64 lo len a \<longleftrightarrow>
     (a + 8 \<le> lo \<or> lo + len \<le> a) \<and> lo + len < 18446744073709551616
     \<and> a \<le> 18446744073709551608"

definition apart64 :: "nat \<Rightarrow> nat \<Rightarrow> nat \<Rightarrow> nat \<Rightarrow> bool" where
  "apart64 lo len b n \<longleftrightarrow>
     (b + n \<le> lo \<or> lo + len \<le> b) \<and> lo + len < 18446744073709551616
     \<and> b + n < 18446744073709551616"

definition overlap64 :: "nat \<Rightarrow> nat \<Rightarrow> bool" where
  "overlap64 a b \<longleftrightarrow>
     a < b + 8 \<and> b < a + 8 \<and> a \<noteq> b \<and> a \<le> 18446744073709551608 \<and> b \<le> 18446744073709551608"

definition within64 :: "nat \<Rightarrow> nat \<Rightarrow> bool" where
  "within64 a x \<longleftrightarrow> a \<le> x \<and> x < a + 8 \<and> a \<le> 18446744073709551608"

definition beyond64 :: "nat \<Rightarrow> nat \<Rightarrow> bool" where
  "beyond64 a x \<longleftrightarrow>
     (x < a \<or> a + 8 \<le> x) \<and> a \<le> 18446744073709551608 \<and> x < 18446744073709551616"

definition bin_bounds :: "u64 list" where
  "bin_bounds =
    [40, 48, 56, 64, 72, 80, 88, 96, 104, 112, 120, 128,
     144, 160, 176, 192, 208, 224, 240, 256,
     288, 320, 352, 384, 416, 448, 480, 512,
     576, 640, 704, 768, 832, 896, 960, 1024,
     2048, 4096, 8192, 16384, 32768, 65536, 131072, 262144, 524288,
     0xffffffffffffffff]"

primrec write_bounds :: "memory \<Rightarrow> nat \<Rightarrow> u64 list \<Rightarrow> memory" where
  "write_bounds m k [] = m"
| "write_bounds m k (v # vs) = write_bounds (store64 m (of_nat (67376 + 8 * k)) v) (Suc k) vs"

definition M0 :: memory where
  "M0 = write_bounds (init_dummy_loop (\<lambda>_. 0) 65536 0) 0 bin_bounds"

section \<open>Memory lemmas\<close>

lemma store64_apply:
  "store64 m a v x = (if x - a < 8 then ucast (drop_bit (8 * unat (x - a)) v) else m x)"
  by (simp add: store64_def)

lemma byte_bit:
  fixes v :: "64 word"
  shows "bit (push_bit k (ucast (ucast (drop_bit k v) :: 8 word)) :: 64 word) n
     = (k \<le> n \<and> n < k + 8 \<and> n < 64 \<and> bit v n)"
  by (auto simp add: bit_push_bit_iff bit_ucast_iff bit_drop_bit_eq)

lemma bytes_cat:
  fixes v :: "64 word"
  shows "ucast (ucast v :: 8 word) OR push_bit 8 (ucast (ucast (drop_bit 8 v) :: 8 word))
     OR push_bit 16 (ucast (ucast (drop_bit 16 v) :: 8 word))
     OR push_bit 24 (ucast (ucast (drop_bit 24 v) :: 8 word))
     OR push_bit 32 (ucast (ucast (drop_bit 32 v) :: 8 word))
     OR push_bit 40 (ucast (ucast (drop_bit 40 v) :: 8 word))
     OR push_bit 48 (ucast (ucast (drop_bit 48 v) :: 8 word))
     OR push_bit 56 (ucast (ucast (drop_bit 56 v) :: 8 word)) = v"
proof -
  have "ucast (ucast v :: 8 word) = (push_bit 0 (ucast (ucast (drop_bit 0 v) :: 8 word)) :: 64 word)"
    by simp
  then show ?thesis
    apply (simp only:)
    apply (rule bit_word_eqI)
    apply (simp only: bit_or_iff byte_bit)
    apply simp
    apply arith
    done
qed

lemma load64_store64_same: "load64 (store64 m a v) a = v"
  by (simp add: load64_def store64_apply bytes_cat)

text \<open>Word subtraction read through \<open>unat\<close>.\<close>

lemma unat_sub_le:
  fixes a b :: u64
  assumes "unat b \<le> unat a"
  shows "unat (a - b) = unat a - unat b"
  using assms by (simp add: unat_sub word_le_nat_alt)

lemma unat_sub_gt:
  fixes a b :: u64
  assumes "unat a < unat b"
  shows "unat (a - b) = 2 ^ 64 + unat a - unat b"
  using assms by (simp add: unat_sub_if_size word_size)

lemma unat_add_k:
  fixes a :: u64
  assumes "unat a + k < 2 ^ 64"
  shows "unat (a + of_nat k) = unat a + k"
proof -
  have "unat (of_nat k :: u64) = k"
    using assms by (simp add: unat_of_nat)
  then show ?thesis
    using assms by (simp add: unat_add_lem [THEN iffD1])
qed

text \<open>The byte at \<open>x\<close> is outside the 8 bytes stored at \<open>a\<close>.\<close>

lemma not_within8:
  fixes a x :: u64
  assumes "unat x < unat a \<or> unat a + 8 \<le> unat x" "unat a + 8 \<le> 2 ^ 64"
  shows "\<not> x - a < 8"
proof (cases "unat x < unat a")
  case True
  then have "unat (x - a) = 2 ^ 64 + unat x - unat a" by (rule unat_sub_gt)
  then have "8 \<le> unat (x - a)" using assms(2) True by simp
  then show ?thesis by (simp add: word_less_nat_alt)
next
  case False
  then have "unat (x - a) = unat x - unat a" by (simp add: unat_sub_le)
  then have "8 \<le> unat (x - a)" using assms(1) False by simp
  then show ?thesis by (simp add: word_less_nat_alt)
qed

lemma store64_outside:
  assumes "unat x < unat a \<or> unat a + 8 \<le> unat x" "unat a + 8 \<le> 2 ^ 64"
  shows "store64 m a v x = m x"
  using not_within8 [OF assms] by (simp only: store64_apply if_False)

lemma load64_store64_other:
  assumes "unat a + 8 \<le> unat b \<or> unat b + 8 \<le> unat a"
    and "unat a + 8 \<le> 2 ^ 64" and "unat b + 8 \<le> 2 ^ 64"
  shows "load64 (store64 m a v) b = load64 m b"
proof -
  have *: "store64 m a v (b + of_nat k) = m (b + of_nat k)" if "k < 8" for k
  proof (rule store64_outside)
    have "unat (b + of_nat k) = unat b + k"
      using that assms(3) by (intro unat_add_k) simp
    then show "unat (b + of_nat k) < unat a \<or> unat a + 8 \<le> unat (b + of_nat k)"
      using assms(1) that by auto
  qed (rule assms(2))
  show ?thesis
    using * [of 0] * [of 1] * [of 2] * [of 3] * [of 4] * [of 5] * [of 6] * [of 7]
    by (simp add: load64_def)
qed

lemma load64_zero: "load64 (\<lambda>_. 0) a = 0"
  by (simp add: load64_def)

lemma store64_inside:
  fixes a x :: u64
  assumes "x - a < 8" "unat a + 8 \<le> 2 ^ 64"
  shows "unat a \<le> unat x \<and> unat x < unat a + 8"
proof (rule ccontr)
  assume "\<not> (unat a \<le> unat x \<and> unat x < unat a + 8)"
  then have "unat x < unat a \<or> unat a + 8 \<le> unat x" by linarith
  then have "\<not> x - a < 8" using assms(2) by (rule not_within8)
  then show False using assms(1) by simp
qed

lemma store64_byte:
  assumes "unat a \<le> unat x" "unat x < unat a + 8"
  shows "store64 m a v x = ucast (drop_bit (8 * (unat x - unat a)) v)"
proof -
  have "unat (x - a) = unat x - unat a" using assms(1) by (rule unat_sub_le)
  moreover from this have "x - a < 8" using assms by (simp add: word_less_nat_alt)
  ultimately show ?thesis by (simp add: store64_apply)
qed

lemma load64_store64_overlap:
  assumes "unat a < unat b + 8" "unat b < unat a + 8" "unat a \<noteq> unat b"
  shows "load64 (store64 m a v) b =
     ucast (store64 m a v b) OR push_bit 8 (ucast (store64 m a v (b + 1)))
     OR push_bit 16 (ucast (store64 m a v (b + 2)))
     OR push_bit 24 (ucast (store64 m a v (b + 3)))
     OR push_bit 32 (ucast (store64 m a v (b + 4)))
     OR push_bit 40 (ucast (store64 m a v (b + 5)))
     OR push_bit 48 (ucast (store64 m a v (b + 6)))
     OR push_bit 56 (ucast (store64 m a v (b + 7)))"
  by (simp add: load64_def)

subsection \<open>Memory in two parts\<close>

lemma split_mem_in:
  assumes "unat lo \<le> unat x" "unat x < unat lo + unat len"
  shows "split_mem lo len s h x = s x"
proof -
  have "unat (x - lo) = unat x - unat lo" using assms(1) by (rule unat_sub_le)
  then have "x - lo < len" using assms by (simp add: word_less_nat_alt)
  then show ?thesis by (simp add: split_mem_def)
qed

lemma split_mem_out:
  assumes "unat x < unat lo \<or> unat lo + unat len \<le> unat x" "unat lo + unat len \<le> 2 ^ 64"
  shows "split_mem lo len s h x = h x"
proof -
  have "\<not> x - lo < len"
  proof (cases "unat x < unat lo")
    case True
    then have "unat (x - lo) = 2 ^ 64 + unat x - unat lo" by (rule unat_sub_gt)
    then show ?thesis using assms(2) True by (simp add: word_less_nat_alt)
  next
    case False
    then have "unat (x - lo) = unat x - unat lo" by (simp add: unat_sub_le)
    then show ?thesis using assms(1) False by (simp add: word_less_nat_alt)
  qed
  then show ?thesis by (simp add: split_mem_def)
qed

lemma load64_split_mem_in:
  assumes "unat lo \<le> unat a" "unat a + 8 \<le> unat lo + unat len" "unat a + 8 \<le> 2 ^ 64"
  shows "load64 (split_mem lo len s h) a = load64 s a"
proof -
  have *: "split_mem lo len s h (a + of_nat k) = s (a + of_nat k)" if "k < 8" for k
  proof (rule split_mem_in)
    have "unat (a + of_nat k) = unat a + k"
      using that assms(3) by (intro unat_add_k) simp
    then show "unat lo \<le> unat (a + of_nat k)" "unat (a + of_nat k) < unat lo + unat len"
      using assms that by auto
  qed
  show ?thesis
    using * [of 0] * [of 1] * [of 2] * [of 3] * [of 4] * [of 5] * [of 6] * [of 7]
    by (simp add: load64_def)
qed

lemma load64_split_mem_out:
  assumes "unat a + 8 \<le> unat lo \<or> unat lo + unat len \<le> unat a"
    and "unat lo + unat len \<le> 2 ^ 64" and "unat a + 8 \<le> 2 ^ 64"
  shows "load64 (split_mem lo len s h) a = load64 h a"
proof -
  have *: "split_mem lo len s h (a + of_nat k) = h (a + of_nat k)" if "k < 8" for k
  proof (rule split_mem_out)
    have "unat (a + of_nat k) = unat a + k"
      using that assms(3) by (intro unat_add_k) simp
    then show "unat (a + of_nat k) < unat lo \<or> unat lo + unat len \<le> unat (a + of_nat k)"
      using assms(1) that by auto
  qed (rule assms(2))
  show ?thesis
    using * [of 0] * [of 1] * [of 2] * [of 3] * [of 4] * [of 5] * [of 6] * [of 7]
    by (simp add: load64_def)
qed

lemma store64_split_mem_in:
  assumes "unat lo \<le> unat a" "unat a + 8 \<le> unat lo + unat len" "unat a + 8 \<le> 2 ^ 64"
  shows "store64 (split_mem lo len s h) a v = split_mem lo len (store64 s a v) h"
proof
  fix x
  show "store64 (split_mem lo len s h) a v x = split_mem lo len (store64 s a v) h x"
  proof (cases "x - a < 8")
    case True
    from store64_inside [OF True assms(3)]
    have "unat lo \<le> unat x" "unat x < unat lo + unat len" using assms by auto
    then have "split_mem lo len (store64 s a v) h x = store64 s a v x" by (rule split_mem_in)
    then show ?thesis using True by (simp add: store64_apply)
  next
    case False
    then show ?thesis by (simp add: store64_apply split_mem_def)
  qed
qed

lemma store64_split_mem_out:
  assumes "unat a + 8 \<le> unat lo \<or> unat lo + unat len \<le> unat a"
    and "unat lo + unat len \<le> 2 ^ 64" and "unat a + 8 \<le> 2 ^ 64"
  shows "store64 (split_mem lo len s h) a v = split_mem lo len s (store64 h a v)"
proof
  fix x
  show "store64 (split_mem lo len s h) a v x = split_mem lo len s (store64 h a v) x"
  proof (cases "x - a < 8")
    case True
    from store64_inside [OF True assms(3)]
    have "unat x < unat lo \<or> unat lo + unat len \<le> unat x" using assms by auto
    then have "split_mem lo len s (store64 h a v) x = store64 h a v x"
      using assms(2) by (rule split_mem_out)
    then show ?thesis using True by (simp add: store64_apply)
  next
    case False
    then show ?thesis by (simp add: store64_apply split_mem_def)
  qed
qed

subsection \<open>Fresh mappings\<close>

lemma zero_fill_zero: "zero_fill (\<lambda>_. 0) b n = (\<lambda>_. 0)"
  by (simp add: zero_fill_def)

lemma zero_fill_inside:
  fixes b n x :: u64
  assumes "x - b < n" "unat b + unat n \<le> 2 ^ 64"
  shows "unat b \<le> unat x \<and> unat x < unat b + unat n"
proof (rule ccontr)
  assume "\<not> (unat b \<le> unat x \<and> unat x < unat b + unat n)"
  then have "unat x < unat b \<or> unat b + unat n \<le> unat x" by auto
  then have "split_mem b n (\<lambda>_. 1) (\<lambda>_. 0) x = 0"
    using assms(2) by (rule split_mem_out)
  then show False using assms(1) by (simp add: split_mem_def)
qed

lemma zero_fill_split_mem:
  assumes "unat b + unat n \<le> unat lo \<or> unat lo + unat len \<le> unat b"
    and "unat lo + unat len \<le> 2 ^ 64" and "unat b + unat n \<le> 2 ^ 64"
  shows "zero_fill (split_mem lo len s h) b n = split_mem lo len s (zero_fill h b n)"
proof
  fix x
  show "zero_fill (split_mem lo len s h) b n x = split_mem lo len s (zero_fill h b n) x"
  proof (cases "x - b < n")
    case True
    from zero_fill_inside [OF True assms(3)]
    have "unat x < unat lo \<or> unat lo + unat len \<le> unat x" using assms by auto
    then have "split_mem lo len s (zero_fill h b n) x = zero_fill h b n x"
      using assms(2) by (rule split_mem_out)
    then show ?thesis using True by (simp add: zero_fill_def)
  next
    case False
    then show ?thesis by (simp add: zero_fill_def split_mem_def)
  qed
qed

lemma zero_fill_store64:
  assumes "unat a + 8 \<le> unat b \<or> unat b + unat n \<le> unat a"
    and "unat a + 8 \<le> 2 ^ 64" and "unat b + unat n \<le> 2 ^ 64"
  shows "zero_fill (store64 m a v) b n = store64 (zero_fill m b n) a v"
proof
  fix x
  show "zero_fill (store64 m a v) b n x = store64 (zero_fill m b n) a v x"
  proof (cases "x - b < n")
    case True
    from zero_fill_inside [OF True assms(3)]
    have "unat x < unat a \<or> unat a + 8 \<le> unat x" using assms by auto
    then have "store64 (zero_fill m b n) a v x = zero_fill m b n x"
      using assms(2) by (rule store64_outside)
    then show ?thesis using True by (simp add: zero_fill_def)
  next
    case False
    then show ?thesis by (simp add: zero_fill_def store64_apply)
  qed
qed

subsection \<open>The same rules at numeral addresses\<close>

lemma unat_of_nat64:
  assumes "x < (18446744073709551616 :: nat)"
  shows "unat (of_nat x :: u64) = x"
  using assms by (simp add: unat_of_nat)

lemma load64_store64_nat:
  assumes "far64 a b"
  shows "load64 (store64 m (of_nat a) v) (of_nat b) = load64 m (of_nat b)"
proof -
  note h = assms [unfolded far64_def]
  have u: "unat (of_nat a :: u64) = a" "unat (of_nat b :: u64) = b"
    using h by (simp_all add: unat_of_nat64)
  show ?thesis
    by (rule load64_store64_other) (use h in \<open>simp_all add: u\<close>)
qed

lemma load64_split_mem_in_nat:
  assumes "inside64 lo len a"
  shows "load64 (split_mem (of_nat lo) (of_nat len) s h) (of_nat a) = load64 s (of_nat a)"
proof -
  note h = assms [unfolded inside64_def]
  have u: "unat (of_nat lo :: u64) = lo" "unat (of_nat len :: u64) = len" "unat (of_nat a :: u64) = a"
    using h by (simp_all add: unat_of_nat64)
  show ?thesis
    by (rule load64_split_mem_in) (use h in \<open>simp_all add: u\<close>)
qed

lemma load64_split_mem_out_nat:
  assumes "outside64 lo len a"
  shows "load64 (split_mem (of_nat lo) (of_nat len) s h) (of_nat a) = load64 h (of_nat a)"
proof -
  note h = assms [unfolded outside64_def]
  have u: "unat (of_nat lo :: u64) = lo" "unat (of_nat len :: u64) = len" "unat (of_nat a :: u64) = a"
    using h by (simp_all add: unat_of_nat64)
  show ?thesis
    by (rule load64_split_mem_out) (use h in \<open>simp_all add: u\<close>)
qed

lemma store64_split_mem_in_nat:
  assumes "inside64 lo len a"
  shows "store64 (split_mem (of_nat lo) (of_nat len) s h) (of_nat a) v
     = split_mem (of_nat lo) (of_nat len) (store64 s (of_nat a) v) h"
proof -
  note h = assms [unfolded inside64_def]
  have u: "unat (of_nat lo :: u64) = lo" "unat (of_nat len :: u64) = len" "unat (of_nat a :: u64) = a"
    using h by (simp_all add: unat_of_nat64)
  show ?thesis
    by (rule store64_split_mem_in) (use h in \<open>simp_all add: u\<close>)
qed

lemma store64_split_mem_out_nat:
  assumes "outside64 lo len a"
  shows "store64 (split_mem (of_nat lo) (of_nat len) s h) (of_nat a) v
     = split_mem (of_nat lo) (of_nat len) s (store64 h (of_nat a) v)"
proof -
  note h = assms [unfolded outside64_def]
  have u: "unat (of_nat lo :: u64) = lo" "unat (of_nat len :: u64) = len" "unat (of_nat a :: u64) = a"
    using h by (simp_all add: unat_of_nat64)
  show ?thesis
    by (rule store64_split_mem_out) (use h in \<open>simp_all add: u\<close>)
qed

lemma zero_fill_split_mem_nat:
  assumes "apart64 lo len b n"
  shows "zero_fill (split_mem (of_nat lo) (of_nat len) s h) (of_nat b) (of_nat n)
     = split_mem (of_nat lo) (of_nat len) s (zero_fill h (of_nat b) (of_nat n))"
proof -
  note h = assms [unfolded apart64_def]
  have u: "unat (of_nat lo :: u64) = lo" "unat (of_nat len :: u64) = len"
    "unat (of_nat b :: u64) = b" "unat (of_nat n :: u64) = n"
    using h by (simp_all add: unat_of_nat64)
  show ?thesis
    by (rule zero_fill_split_mem) (use h in \<open>simp_all add: u\<close>)
qed

lemma zero_fill_store64_nat:
  assumes "outside64 b n a"
  shows "zero_fill (store64 m (of_nat a) v) (of_nat b) (of_nat n)
     = store64 (zero_fill m (of_nat b) (of_nat n)) (of_nat a) v"
proof -
  note h = assms [unfolded outside64_def]
  have u: "unat (of_nat b :: u64) = b" "unat (of_nat n :: u64) = n" "unat (of_nat a :: u64) = a"
    using h by (simp_all add: unat_of_nat64)
  show ?thesis
    by (rule zero_fill_store64) (use h in \<open>simp_all add: u\<close>)
qed

lemmas load64_store64_num =
  load64_store64_nat [of "numeral a" "numeral b", unfolded of_nat_numeral] for a b

lemmas load64_split_mem_in_num =
  load64_split_mem_in_nat [of "numeral lo" "numeral len" "numeral a", unfolded of_nat_numeral] for lo len a

lemmas load64_split_mem_out_num =
  load64_split_mem_out_nat [of "numeral lo" "numeral len" "numeral a", unfolded of_nat_numeral] for lo len a

lemmas store64_split_mem_in_num =
  store64_split_mem_in_nat [of "numeral lo" "numeral len" "numeral a", unfolded of_nat_numeral] for lo len a

lemmas store64_split_mem_out_num =
  store64_split_mem_out_nat [of "numeral lo" "numeral len" "numeral a", unfolded of_nat_numeral] for lo len a

lemmas zero_fill_split_mem_num =
  zero_fill_split_mem_nat [of "numeral lo" "numeral len" "numeral b" "numeral n", unfolded of_nat_numeral] for lo len b n

lemmas zero_fill_store64_num =
  zero_fill_store64_nat [of "numeral b" "numeral n" "numeral a", unfolded of_nat_numeral] for b n a

lemma load64_bytes_nat:
  "overlap64 a b \<Longrightarrow> load64 (store64 m (of_nat a) v) (of_nat b) =
     ucast (store64 m (of_nat a) v (of_nat b))
     OR push_bit 8 (ucast (store64 m (of_nat a) v (of_nat b + 1)))
     OR push_bit 16 (ucast (store64 m (of_nat a) v (of_nat b + 2)))
     OR push_bit 24 (ucast (store64 m (of_nat a) v (of_nat b + 3)))
     OR push_bit 32 (ucast (store64 m (of_nat a) v (of_nat b + 4)))
     OR push_bit 40 (ucast (store64 m (of_nat a) v (of_nat b + 5)))
     OR push_bit 48 (ucast (store64 m (of_nat a) v (of_nat b + 6)))
     OR push_bit 56 (ucast (store64 m (of_nat a) v (of_nat b + 7)))"
  by (simp add: load64_def)

lemma store64_within_nat:
  assumes "within64 a x"
  shows "store64 m (of_nat a) v (of_nat x) = ucast (drop_bit (8 * (x - a)) v)"
proof -
  note h = assms [unfolded within64_def]
  have u: "unat (of_nat a :: u64) = a" "unat (of_nat x :: u64) = x"
    using h by (simp_all add: unat_of_nat64)
  show ?thesis
    using store64_byte [of "of_nat a" "of_nat x" m v] h by (simp add: u)
qed

lemma store64_beyond_nat:
  assumes "beyond64 a x"
  shows "store64 m (of_nat a) v (of_nat x) = m (of_nat x)"
proof -
  note h = assms [unfolded beyond64_def]
  have u: "unat (of_nat a :: u64) = a" "unat (of_nat x :: u64) = x"
    using h by (simp_all add: unat_of_nat64)
  show ?thesis
    by (rule store64_outside) (use h in \<open>simp_all add: u\<close>)
qed

lemmas load64_bytes_num =
  load64_bytes_nat [of "numeral a" "numeral b", unfolded of_nat_numeral] for a b

lemmas store64_within_num =
  store64_within_nat [of "numeral a" "numeral x", unfolded of_nat_numeral] for a x

lemmas store64_beyond_num =
  store64_beyond_nat [of "numeral a" "numeral x", unfolded of_nat_numeral] for a x

lemma load64_cong: "a = b \<Longrightarrow> load64 m a = load64 m b"
  by simp

section \<open>The memory after initialization\<close>

lemma in_region:
  fixes x lo len :: u64
  assumes "unat lo \<le> unat x" "unat x < unat lo + unat len"
  shows "x - lo < len"
proof -
  have "unat (x - lo) = unat x - unat lo" using assms(1) by (rule unat_sub_le)
  then show ?thesis using assms by (simp add: word_less_nat_alt)
qed

lemma store64_region_out:
  assumes "\<not> x - lo < len" "unat lo \<le> unat a" "unat a + 8 \<le> unat lo + unat len"
    "unat a + 8 \<le> 2 ^ 64"
  shows "store64 m a v x = m x"
proof (cases "x - a < 8")
  case True
  from store64_inside [OF True assms(4)]
  have "unat lo \<le> unat x" "unat x < unat lo + unat len" using assms(2,3) by auto
  then have "x - lo < len" by (rule in_region)
  then show ?thesis using assms(1) by simp
next
  case False
  then show ?thesis by (simp add: store64_apply)
qed

lemma store64_region_out_nat:
  assumes "\<not> x - of_nat lo < of_nat len" "lo \<le> a" "a + 8 \<le> lo + len"
    "lo + len < 18446744073709551616"
  shows "store64 m (of_nat a) v x = m x"
proof -
  have u: "unat (of_nat lo :: u64) = lo" "unat (of_nat len :: u64) = len" "unat (of_nat a :: u64) = a"
    using assms(2-) by (simp_all add: unat_of_nat64)
  show ?thesis
    by (rule store64_region_out [OF assms(1)]) (use assms(2-) in \<open>simp_all add: u\<close>)
qed

lemma store64_zero_byte: "m x = 0 \<Longrightarrow> store64 m a 0 x = 0"
  by (simp add: store64_apply)

lemma dummy_nat: "dummy 65536 i = of_nat (65904 + 32 * i)"
  by (simp add: dummy_def)

lemma dummy_field_nat:
  "dummy 65536 i + 8 = of_nat (65912 + 32 * i)"
  "dummy 65536 i + 16 = of_nat (65920 + 32 * i)"
  "dummy 65536 i + 24 = of_nat (65928 + 32 * i)"
  by (simp_all add: dummy_def)

lemma bin_addr_nat: "bin_addr 65536 i = of_nat (65536 + 8 * i)"
  by (simp add: bin_addr_def)

lemma bin_index_addr_nat: "bin_index_addr 65536 i = of_nat (67376 + 8 * i)"
  by (simp add: bin_index_addr_def)

lemma init_dummy_loop_zero_aux:
  assumes "\<not> x - 65536 < 368"
  shows "m x = 0 \<Longrightarrow> w = 65536 \<Longrightarrow> init_dummy_loop m w i x = 0"
proof (induction m w i rule: init_dummy_loop.induct)
  case (1 m w i)
  show ?case
  proof (cases "i < NUM_BINS")
    case True
    then have i: "i < 46" by (simp add: NUM_BINS_def)
    have r: "\<not> x - of_nat 65536 < of_nat 368" using assms by simp
    let ?m3 = "store64 (store64 (store64 m (dummy w i + 8) 0) (dummy w i + 16) 0)
               (dummy w i + 24) 0"
    have "?m3 x = 0" using "1.prems"(1) by (simp add: store64_zero_byte)
    moreover have "store64 ?m3 (bin_addr w i) (dummy w i) x = ?m3 x"
      unfolding \<open>w = 65536\<close> bin_addr_nat
      by (rule store64_region_out_nat [OF r]) (use i in simp_all)
    ultimately have "store64 ?m3 (bin_addr w i) (dummy w i) x = 0" by simp
    from "1.IH" [OF True refl refl refl refl this \<open>w = 65536\<close>] True
    show ?thesis by (subst init_dummy_loop.simps) (simp add: Let_def)
  next
    case False
    then show ?thesis using "1.prems" by (subst init_dummy_loop.simps) simp
  qed
qed

lemmas init_dummy_loop_zero = init_dummy_loop_zero_aux [OF _ _ refl]

lemma init_dummy_step_frame:
  assumes "j < i" "i < 46"
  shows "load64 (store64 (store64 (store64 (store64 m (dummy 65536 i + 8) 0)
           (dummy 65536 i + 16) 0) (dummy 65536 i + 24) 0) (bin_addr 65536 i) v)
           (bin_addr 65536 j) = load64 m (bin_addr 65536 j)"
proof -
  have f: "far64 (65536 + 8 * i) (65536 + 8 * j)" "far64 (65928 + 32 * i) (65536 + 8 * j)"
    "far64 (65920 + 32 * i) (65536 + 8 * j)" "far64 (65912 + 32 * i) (65536 + 8 * j)"
    using assms by (simp_all add: far64_def)
  show ?thesis
    unfolding dummy_field_nat bin_addr_nat
    by (simp only: load64_store64_nat [OF f(1)] load64_store64_nat [OF f(2)]
        load64_store64_nat [OF f(3)] load64_store64_nat [OF f(4)])
qed

lemma init_dummy_loop_frame_aux:
  "j < i \<Longrightarrow> w = 65536 \<Longrightarrow>
     load64 (init_dummy_loop m w i) (bin_addr w j) = load64 m (bin_addr w j)"
proof (induction m w i rule: init_dummy_loop.induct)
  case (1 m w i)
  show ?case
  proof (cases "i < NUM_BINS")
    case True
    then have i: "i < 46" by (simp add: NUM_BINS_def)
    have "j < i + 1" using "1.prems"(1) by simp
    from "1.IH" [OF True refl refl refl refl this \<open>w = 65536\<close>] True
    show ?thesis
      using init_dummy_step_frame [OF "1.prems"(1) i] "1.prems"(2)
      by (subst init_dummy_loop.simps) (simp add: Let_def)
  next
    case False
    then show ?thesis by (subst init_dummy_loop.simps) simp
  qed
qed

lemma init_dummy_loop_bins_aux:
  "i \<le> j \<Longrightarrow> j < 46 \<Longrightarrow> w = 65536 \<Longrightarrow>
     load64 (init_dummy_loop m w i) (bin_addr w j) = dummy w j"
proof (induction m w i rule: init_dummy_loop.induct)
  case (1 m w i)
  have True: "i < NUM_BINS" using "1.prems" by (simp add: NUM_BINS_def)
  let ?m4 = "store64 (store64 (store64 (store64 m (dummy w i + 8) 0)
           (dummy w i + 16) 0) (dummy w i + 24) 0) (bin_addr w i) (dummy w i)"
  have unf: "init_dummy_loop m w i = init_dummy_loop ?m4 w (i + 1)"
    using True by (subst init_dummy_loop.simps) (simp add: Let_def)
  show ?case
    unfolding unf
  proof (cases "i = j")
    case True
    have "load64 (init_dummy_loop ?m4 w (i + 1)) (bin_addr w i) = load64 ?m4 (bin_addr w i)"
      using "1.prems" by (intro init_dummy_loop_frame_aux) simp_all
    then show "load64 (init_dummy_loop ?m4 w (i + 1)) (bin_addr w j) = dummy w j"
      unfolding True [symmetric] by (simp only: load64_store64_same)
  next
    case False
    then have "i + 1 \<le> j" using "1.prems" by simp
    from "1.IH" [OF \<open>i < NUM_BINS\<close> refl refl refl refl this "1.prems"(2,3)]
    show "load64 (init_dummy_loop ?m4 w (i + 1)) (bin_addr w j) = dummy w j" .
  qed
qed

lemmas init_dummy_loop_bins = init_dummy_loop_bins_aux [OF _ _ refl]

lemma initialize_bin_indices_eval:
  "initialize_bin_indices m 65536 = ok (write_bounds m 0 bin_bounds)"
  by (simp add: initialize_bin_indices_def bin_index_loop.simps bin_index_double_loop.simps
      bin_index_addr_def bin_bounds_def)

lemma write_bounds_outside:
  "\<not> x - 67376 < 368 \<Longrightarrow> k + length vs \<le> 46 \<Longrightarrow> write_bounds m k vs x = m x"
proof (induction vs arbitrary: m k)
  case Nil
  then show ?case by simp
next
  case (Cons v vs)
  have r: "\<not> x - of_nat 67376 < of_nat 368" using Cons.prems(1) by simp
  have "store64 m (of_nat (67376 + 8 * k)) v x = m x"
    by (rule store64_region_out_nat [OF r]) (use Cons.prems(2) in simp_all)
  then show ?case using Cons by simp
qed

lemma write_bounds_below:
  "a + 8 \<le> 67376 + 8 * k \<Longrightarrow> k + length vs \<le> 46 \<Longrightarrow>
     load64 (write_bounds m k vs) (of_nat a) = load64 m (of_nat a)"
proof (induction vs arbitrary: m k)
  case Nil
  then show ?case by simp
next
  case (Cons v vs)
  have "far64 (67376 + 8 * k) a" using Cons.prems by (simp add: far64_def)
  then have "load64 (store64 m (of_nat (67376 + 8 * k)) v) (of_nat a) = load64 m (of_nat a)"
    by (rule load64_store64_nat)
  moreover have "load64 (write_bounds (store64 m (of_nat (67376 + 8 * k)) v) (Suc k) vs) (of_nat a)
      = load64 (store64 m (of_nat (67376 + 8 * k)) v) (of_nat a)"
    by (rule Cons.IH) (use Cons.prems in simp_all)
  ultimately show ?case by simp
qed

lemma write_bounds_nth:
  "j < length vs \<Longrightarrow> k + length vs \<le> 46 \<Longrightarrow>
     load64 (write_bounds m k vs) (of_nat (67376 + 8 * (k + j))) = vs ! j"
proof (induction vs arbitrary: m k j)
  case Nil
  then show ?case by simp
next
  case (Cons v vs)
  show ?case
  proof (cases j)
    case 0
    have "load64 (write_bounds (store64 m (of_nat (67376 + 8 * k)) v) (Suc k) vs)
        (of_nat (67376 + 8 * k)) = load64 (store64 m (of_nat (67376 + 8 * k)) v) (of_nat (67376 + 8 * k))"
      by (rule write_bounds_below) (use Cons.prems in simp_all)
    then show ?thesis using 0 by (simp add: load64_store64_same)
  next
    case (Suc j')
    have "load64 (write_bounds (store64 m (of_nat (67376 + 8 * k)) v) (Suc k) vs)
        (of_nat (67376 + 8 * (Suc k + j'))) = vs ! j'"
      by (rule Cons.IH) (use Cons.prems Suc in simp_all)
    then show ?thesis using Suc by simp
  qed
qed

lemma len_bounds: "length bin_bounds = 46"
  by (simp add: bin_bounds_def)

lemma M0_outside:
  assumes "\<not> x - 65536 < 368" "\<not> x - 67376 < 368"
  shows "M0 x = 0"
proof -
  have "M0 x = init_dummy_loop (\<lambda>_. 0) 65536 0 x"
    unfolding M0_def by (rule write_bounds_outside [OF assms(2)]) (simp add: len_bounds)
  also have "\<dots> = 0" by (rule init_dummy_loop_zero [OF assms(1)]) simp
  finally show ?thesis .
qed

lemma M0_bins:
  assumes "j < 46"
  shows "load64 M0 (of_nat (65536 + 8 * j)) = of_nat (65904 + 32 * j)"
proof -
  have "load64 M0 (of_nat (65536 + 8 * j)) = load64 (init_dummy_loop (\<lambda>_. 0) 65536 0) (of_nat (65536 + 8 * j))"
    unfolding M0_def by (rule write_bounds_below) (use assms in \<open>simp_all add: len_bounds\<close>)
  also have "\<dots> = dummy 65536 j"
    using init_dummy_loop_bins [of 0 j "\<lambda>_. 0"] assms by (simp add: bin_addr_nat)
  finally show ?thesis by (simp only: dummy_nat)
qed

lemma M0_table:
  assumes "j < 46"
  shows "load64 M0 (of_nat (67376 + 8 * j)) = bin_bounds ! j"
  using write_bounds_nth [of j bin_bounds 0] assms by (simp add: M0_def len_bounds)

lemma region_inside:
  fixes b n x :: u64
  assumes "x - b < n" "unat b + unat n \<le> 2 ^ 64"
  shows "unat b \<le> unat x \<and> unat x < unat b + unat n"
  using assms by (rule zero_fill_inside)

lemma M0_split:
  "M0 = split_mem 65536 368 M0 (split_mem 65904 1472 (\<lambda>_. 0) (split_mem 67376 368 M0 (\<lambda>_. 0)))"
proof
  fix x
  show "M0 x = split_mem 65536 368 M0 (split_mem 65904 1472 (\<lambda>_. 0) (split_mem 67376 368 M0 (\<lambda>_. 0))) x"
  proof (cases "x - 65536 < 368")
    case True
    then show ?thesis by (simp add: split_mem_def)
  next
    case a: False
    show ?thesis
    proof (cases "x - 67376 < 368")
      case True
      from region_inside [OF True] have "67376 \<le> unat x" by simp
      then have "\<not> x - 65904 < 1472"
        using region_inside [of x 65904 1472] by auto
      then show ?thesis using a True by (simp add: split_mem_def)
    next
      case False
      then show ?thesis using a by (simp add: split_mem_def M0_outside)
    qed
  qed
qed

lemma initialize_eval:
  "initialize_bin_indices (init_dummy_loop (\<lambda>_. 0) 65536 0) 65536 =
     ok (split_mem 65536 368 M0 (split_mem 65904 1472 (\<lambda>_. 0) (split_mem 67376 368 M0 (\<lambda>_. 0))))"
  using M0_split by (simp add: initialize_bin_indices_eval M0_def)

lemma M0_bins_nat:
  assumes "65536 \<le> n" "n < 65904" "n mod 8 = 0"
  shows "load64 M0 (of_nat n) = of_nat (65904 + 4 * (n - 65536))"
proof -
  define j where "j = (n - 65536) div 8"
  have a: "n = 65536 + 8 * j" using assms unfolding j_def by presburger
  have "j < 46" using assms(2) a by simp
  from M0_bins [OF this] show ?thesis
    unfolding a by simp
qed

lemma M0_table_nat:
  assumes "67376 \<le> n" "n < 67744" "n mod 8 = 0"
  shows "load64 M0 (of_nat n) = bin_bounds ! ((n - 67376) div 8)"
proof -
  define j where "j = (n - 67376) div 8"
  have a: "n = 67376 + 8 * j" using assms unfolding j_def by presburger
  have "j < 46" using assms(2) a by simp
  from M0_table [OF this] show ?thesis
    unfolding a by simp
qed

lemmas M0_bins_num = M0_bins_nat [of "numeral a", unfolded of_nat_numeral] for a

lemmas M0_table_num = M0_table_nat [of "numeral a", unfolded of_nat_numeral] for a

section \<open>Evaluation\<close>

lemma bnd_ok: "bnd (Some (Inr x)) f = f x" by (simp add: bnd_def)
lemma bnd_abort: "bnd (Some (Inl e)) f = Some (Inl e)" by (simp add: bnd_def)
lemma bnd_none: "bnd None f = None" by (simp add: bnd_def)
lemma bnd_weak_cong: "r = r' \<Longrightarrow> bnd r f = bnd r' f" by simp

lemmas model_defs = wmalloc_def initialize_wmalloc_def sbrk_def mmap_def
  bnd_ok bnd_abort bnd_none ok_def abort_def Let_def NUM_BINS_def
  dummy_def bin_addr_def bin_index_addr_def bin_def bin_index_def
  necessary_length_def CHUNK_OVERHEAD_def MINIMUM_CHUNK_SIZE_def MMAP_SIZE_def PAGE_SIZE_def
  find_bin_def find_bin_loop.simps search_bin_def search_bin_loop.simps
  check_bigger_bins_def check_bigger_bins_loop.simps
  allocate_chunk_def mmap_length_def split_chunk_def split_chunk_cleave_def
  add_chunk_def add_chunk_loop.simps insert_in_place_def insert_in_place_loop.simps
  remove_chunk_def prev_chunk_size_def curr_chunk_size_def left_ptr_def right_ptr_def
  next_size_addr_def is_prev_available_def is_next_available_def
  set_prev_chunk_size_def set_next_chunk_size_def get_prev_chunk_size_def
  get_next_chunk_size_def get_prev_chunk_def get_next_chunk_def
  set_prev_flag_def set_next_flag_def set_unavailable_def set_available_def
  set_adjacent_sizes_def join_chunks_def wfree_def
  bin_chunks_def bin_chunks_loop.simps

lemmas mem_rules = load64_store64_same load64_store64_num load64_zero
  load64_split_mem_in_num load64_split_mem_out_num
  store64_split_mem_in_num store64_split_mem_out_num
  zero_fill_zero zero_fill_split_mem_num zero_fill_store64_num
  far64_def inside64_def outside64_def apart64_def
  M0_bins_num M0_table_num bin_bounds_def
  load64_bytes_num store64_within_num store64_beyond_num
  overlap64_def within64_def beyond64_def

lemmas ev = fresh_def model_defs initialize_eval mem_rules
  observe_def split_moment_def sentinel_search_def


section \<open>Claims\<close>

subsection \<open>The size of an acquired region\<close>

text \<open>
  Claim C6, as the specification states it: a required length above 131072 acquires a
  region of \<open>\<lceil>R / 4096\<rceil> + 1\<close> pages. The code divides with truncation, so the required
  length 131073 acquires 33 pages (135168 bytes), not the 34 pages of the formula.
\<close>

theorem mmap_length_ceiling_counterexample:
  "unat (mmap_length 131073) \<noteq> ((131073 + 4095) div 4096 + 1) * 4096"
  by (simp add: mmap_length_def MMAP_SIZE_def PAGE_SIZE_def)

text \<open>
  Claim C6, amended: for every required length \<open>R\<close>, the length \<^verbatim>\<open>allocate_chunk\<close> passes
  to \<^verbatim>\<open>mmap\<close> is exactly 131072 when \<open>R \<le> 131072\<close>, and otherwise
  \<open>\<lfloor>R / 4096\<rfloor> + 1\<close> pages of 4096 bytes (the smallest multiple of the page size greater
  than \<open>R\<close>), the byte count taken modulo \<open>2 ^ 64\<close>.
\<close>

theorem mmap_length_pages:
  "unat (mmap_length R) =
     (if unat R \<le> 131072 then 131072 else ((unat R div 4096 + 1) * 4096) mod 2 ^ 64)"
proof (cases "R \<le> MMAP_SIZE")
  case True
  then show ?thesis
    by (simp add: mmap_length_def MMAP_SIZE_def word_le_nat_alt)
next
  case False
  then have gt: "\<not> unat R \<le> 131072"
    by (simp add: MMAP_SIZE_def word_le_nat_alt)
  define q where "q = unat R div 4096"
  have d: "unat (R div 4096) = q"
    by (simp add: unat_div q_def)
  have "unat R < 2 ^ 64" using unsigned_less [of R] by simp
  then have q: "q + 1 < 2 ^ 64" by (simp add: q_def)
  have "unat (R div 4096 + 1) = (unat (R div 4096) + unat (1 :: u64)) mod 2 ^ LENGTH(64)"
    by (rule unat_word_ariths)
  also have "\<dots> = q + 1" using q by (simp add: d)
  finally have s: "unat (R div 4096 + 1) = q + 1" .
  have "unat ((R div 4096 + 1) * 4096) = unat (R div 4096 + 1) * unat (4096 :: u64) mod 2 ^ LENGTH(64)"
    by (rule unat_word_ariths)
  also have "\<dots> = ((q + 1) * 4096) mod 2 ^ 64" by (simp only: s) simp
  finally have "unat ((R div 4096 + 1) * 4096) = ((q + 1) * 4096) mod 2 ^ 64" .
  then show ?thesis
    using False gt unfolding q_def by (simp add: mmap_length_def PAGE_SIZE_def)
qed

subsection \<open>Failure of the operating system\<close>

text \<open>
  Claim C1 says that \<^verbatim>\<open>wmalloc\<close> returns a null pointer when no bin holds a chunk and
  \<^verbatim>\<open>mmap\<close> fails. On the first call with a failing \<^verbatim>\<open>mmap\<close>, \<^verbatim>\<open>allocate_chunk\<close> returns
  null, \<^verbatim>\<open>wmalloc\<close> passes it on to \<^verbatim>\<open>split_chunk\<close> unchecked, and the assertion
  \<^verbatim>\<open>to_remove != NULL\<close> stops the program: no pointer is returned.
\<close>

theorem wmalloc_mmap_failure_aborts:
  "wmalloc (fresh\<lparr>mmap_results := [- 1]\<rparr>) 16 = abort Assertion_failed"
  by (simp add: ev cong: bnd_weak_cong let_weak_cong)

text \<open>
  Claim C7 says that after a failed \<^verbatim>\<open>sbrk\<close> the engine stays uninitialized and the
  next call initializes again. The first call does return null, but it leaves
  \<^verbatim>\<open>wmalloc_ptr\<close> at the failure value \<^verbatim>\<open>(void*) -1\<close>, which is not null: the test
  \<^verbatim>\<open>wmalloc_ptr == NULL\<close> of the next call fails, and the second answer of \<^verbatim>\<open>sbrk\<close>
  stays unused.
\<close>

theorem wmalloc_sbrk_failure_leaves_pointer:
  "wmalloc (fresh\<lparr>sbrk_results := [- 1, 65536]\<rparr>) 16
     = ok (fresh\<lparr>wmalloc_ptr := - 1, sbrk_results := [65536]\<rparr>, 0)"
  by (simp add: ev cong: bnd_weak_cong let_weak_cong)

subsection \<open>The dummy node of a bin\<close>

text \<open>
  Claim C8 says that \<^verbatim>\<open>search_bin\<close> never selects and removes a bin's dummy node, for
  every 64-bit request size. The request of 4294967272 bytes needs \<open>2 ^ 32\<close> bytes;
  \<^verbatim>\<open>find_bin\<close> gives bin 45, and the \<^verbatim>\<open>int\<close> parameter of \<^verbatim>\<open>search_bin\<close> receives 0. The
  walk starts at the dummy node (address 67344), whose size 0 is not below 0, selects it
  and calls \<^verbatim>\<open>remove_chunk\<close> on it; the dummy's \<^verbatim>\<open>left_ptr\<close> is null and the store
  through it stops the program.
\<close>

theorem search_bin_selects_dummy:
  "sentinel_search 4294967272 = ok (45, Some 67344, 67344)
   \<and> wmalloc fresh 4294967272 = abort Null_dereference"
  by (simp add: ev cong: bnd_weak_cong let_weak_cong)

subsection \<open>Marking and coalescing\<close>

text \<open>
  Claim C10 says that whenever \<^verbatim>\<open>split_chunk\<close> calls \<^verbatim>\<open>set_unavailable\<close>, the neighbours'
  words that describe the chunk have their top bit clear. After \<^verbatim>\<open>wmalloc(16)\<close> and
  \<^verbatim>\<open>wfree\<close> of its result, \<^verbatim>\<open>wmalloc(17)\<close> takes the chunk at 1048576 from a bigger
  bin and splits it at 41 bytes. \<^verbatim>\<open>set_prev_chunk_size\<close> builds the right part's leading
  word at 1048617 from 41 and the top bit of the bytes already there, whose last byte is
  the low byte \<^verbatim>\<open>0xD8\<close> of the size 131032 written at 1048624 by the first split: the
  word is \<open>2 ^ 63 + 41\<close> when \<^verbatim>\<open>set_unavailable\<close> is called, and the toggle clears the
  bit.
\<close>

theorem set_unavailable_meets_set_bit:
  "split_moment fresh [Malloc 16, Free 0] 17
     = ok (0, 1048576, True, 1048617, 9223372036854775849, 41)"
  by (simp add: ev cong: bnd_weak_cong let_weak_cong)

text \<open>
  Claim C5 says that after \<^verbatim>\<open>split_chunk\<close> the returned chunk is marked in-use in its
  neighbours' flag words, split or not. In the same scenario \<^verbatim>\<open>wmalloc(17)\<close> returns the
  chunk at 1048576 with size 41 and puts the right part (1048617, size 131031) into bin
  42, as the claim says; but the right part's leading word, at 1048617, is 41 with the
  top bit clear: it describes the returned chunk as available.
\<close>

theorem split_chunk_leaves_returned_chunk_available:
  "observe fresh [Malloc 16, Free 0, Malloc 17] [1048576, 1048617] [1048609, 1048617] [42]
     = ok ([1048592, 1048592], [41, 131031], [131031, 41], [Some [1048617]], [2097152])"
  by (simp add: ev cong: bnd_weak_cong let_weak_cong)

text \<open>
  Claim C4 says that no two chunks adjacent in memory are both free between operations.
  The caller allocates 104, 16, releases the first, allocates 16 and 64, and releases the
  three chunks it holds. At the end the chunk at 1048576 has size 128 and is in bin 11,
  the chunk at 1048704 = 1048576 + 128 has size 130944 and is in bin 42: both are free
  and they touch. The last \<^verbatim>\<open>wfree\<close> did not join them, because the trailing word of the
  first (at 1048696) still has its top bit set.
\<close>

theorem adjacent_chunks_both_free:
  "observe fresh [Malloc 104, Malloc 16, Free 0, Malloc 16, Malloc 64, Free 2, Free 1, Free 3]
       [1048576, 1048704] [1048696] [11, 42]
     = ok ([1048592, 1048720, 1048592, 1048632], [128, 130944], [9223372036854906752],
           [Some [1048576], Some [1048704]], [2097152])"
  by (simp add: ev cong: bnd_weak_cong let_weak_cong)

end
